theory Spec2Isabelle
  imports Complex_Main
begin

section \<open>Python strings and the string methods used by create_pdf\<close>

text \<open>
  A Python \<open>str\<close> is a sequence of Unicode code points, so a string is a list of
  code points (natural numbers) and \<open>len\<close> is \<open>length\<close>. \<open>ustr\<close> reads an
  ASCII literal; the three non-ASCII characters of the source are given by number.
\<close>

type_synonym ustring = "nat list"

definition ustr :: "string \<Rightarrow> ustring" where
  "ustr s = map of_char s"

definition em_dash :: nat where
  "em_dash = 8212"

definition en_dash :: nat where
  "en_dash = 8211"

definition bullet_glyph :: nat where
  "bullet_glyph = 8226"

definition newline :: nat where
  "newline = 10"

definition vbar :: nat where
  "vbar = 124"

text \<open>
  \<open>str.isspace\<close> of one character, as CPython's tables have it: U+0009..U+000D,
  U+001C..U+0020, U+0085, U+00A0, U+1680, U+2000..U+200A, U+2028, U+2029, U+202F,
  U+205F, U+3000.
\<close>

definition py_isspace :: "nat \<Rightarrow> bool" where
  "py_isspace c =
     ((9 \<le> c \<and> c \<le> 13) \<or> (28 \<le> c \<and> c \<le> 32) \<or> c = 133 \<or> c = 160 \<or> c = 5760
      \<or> (8192 \<le> c \<and> c \<le> 8202) \<or> c = 8232 \<or> c = 8233 \<or> c = 8239 \<or> c = 8287
      \<or> c = 12288)"

text \<open>\<open>s.strip()\<close>: whitespace removed from both ends.\<close>

definition py_strip :: "ustring \<Rightarrow> ustring" where
  "py_strip s = rev (dropWhile py_isspace (rev (dropWhile py_isspace s)))"

text \<open>
  \<open>s.split(sep)\<close> for a one-character separator: never empty, \<open>''''.split\<close> is
  \<open>['''']\<close>, and a trailing separator gives a trailing empty string.
  The result of the recursive call is never empty, so its \<open>[]\<close> case is not
  reached.
\<close>

fun py_split :: "nat \<Rightarrow> ustring \<Rightarrow> ustring list" where
  "py_split sep [] = [[]]"
| "py_split sep (c # cs) =
     (if c = sep then [] # py_split sep cs
      else (case py_split sep cs of
              [] \<Rightarrow> [[c]]
            | l # ls \<Rightarrow> (c # l) # ls))"

text \<open>\<open>s.startswith(p)\<close> and the substring test \<open>sub in s\<close>.\<close>

definition py_startswith :: "ustring \<Rightarrow> ustring \<Rightarrow> bool" where
  "py_startswith s p = (take (length p) s = p)"

fun py_contains :: "ustring \<Rightarrow> ustring \<Rightarrow> bool" where
  "py_contains sub [] = (sub = [])"
| "py_contains sub (c # cs) = (py_startswith (c # cs) sub \<or> py_contains sub cs)"

text \<open>\<open>s.replace(old, new)\<close> for a one-character \<open>old\<close>.\<close>

definition py_replace :: "nat \<Rightarrow> ustring \<Rightarrow> ustring \<Rightarrow> ustring" where
  "py_replace old new s = concat (map (\<lambda>c. if c = old then new else [c]) s)"

text \<open>
  The case properties of a code point come from the Unicode database of the
  interpreter, which is not part of the repository: they are a parameter.
  \<open>str.isupper\<close> is CPython's: a one-character string is upper-case iff its
  character is; a longer one iff no character is lower-case or title-case and
  some character is upper-case; the empty string is not.
\<close>

record unicode_case =
  ch_isupper :: "nat \<Rightarrow> bool"
  ch_islower :: "nat \<Rightarrow> bool"
  ch_istitle :: "nat \<Rightarrow> bool"

definition py_isupper :: "unicode_case \<Rightarrow> ustring \<Rightarrow> bool" where
  "py_isupper db s =
     (if length s = 1 then ch_isupper db (hd s)
      else list_all (\<lambda>c. \<not> ch_islower db c \<and> \<not> ch_istitle db c) s
           \<and> list_ex (ch_isupper db) s)"

text \<open>
  The database on ASCII letters, every other code point uncased: CPython's tables on
  the ASCII range and on the uncased punctuation U+2013, U+2014, U+2022. It is used
  for the concrete inputs only; the general theorems hold for every table.
\<close>

definition ascii_case :: unicode_case where
  "ascii_case =
     \<lparr>ch_isupper = (\<lambda>c. 65 \<le> c \<and> c \<le> 90),
      ch_islower = (\<lambda>c. 97 \<le> c \<and> c \<le> 122),
      ch_istitle = (\<lambda>c. False)\<rparr>"

section \<open>create_pdf\<close>

text \<open>
  The six paragraph styles of \<open>create_pdf\<close>, and the flowables it appends to
  \<open>elements\<close>: \<open>Spacer(1, 0.08*inch)\<close> or \<open>Paragraph(text, style)\<close>.
  Lengths are in points, \<open>inch = 72\<close> (reportlab.lib.units).
\<close>

datatype style =
  name_style | contact_style | heading_style | subheading_style | normal_style | bullet_style

datatype flowable = Spacer real real | Paragraph ustring style

definition inch :: real where
  "inch = 72"

definition letter :: "real \<times> real" where
  "letter = (8.5 * inch, 11 * inch)"

text \<open>The roles of the specification: one per style, \<open>Blank\<close> for a spacer.\<close>

datatype role = Name | ContactLine | SectionHeader | SubHeading | Bullet | Body | Blank

fun role_of :: "flowable \<Rightarrow> role" where
  "role_of (Spacer w h) = Blank"
| "role_of (Paragraph t name_style) = Name"
| "role_of (Paragraph t contact_style) = ContactLine"
| "role_of (Paragraph t heading_style) = SectionHeader"
| "role_of (Paragraph t subheading_style) = SubHeading"
| "role_of (Paragraph t bullet_style) = Bullet"
| "role_of (Paragraph t normal_style) = Body"

fun text_of :: "flowable \<Rightarrow> ustring option" where
  "text_of (Spacer w h) = None"
| "text_of (Paragraph t st) = Some t"

text \<open>The escaping of one line: three replacements, in the source's order.\<close>

definition escape :: "ustring \<Rightarrow> ustring" where
  "escape line =
     py_replace 62 (ustr ''&gt;'') (py_replace 60 (ustr ''&lt;'') (py_replace 38 (ustr ''&amp;'') line))"

definition month_tokens :: "ustring list" where
  "month_tokens = map ustr
     [''01/'', ''02/'', ''03/'', ''04/'', ''05/'', ''06/'', ''07/'', ''08/'', ''09/'',
      ''10/'', ''11/'', ''12/'', ''Present'', ''Expected'']"

text \<open>The two flags carried across the loop.\<close>

record flags =
  is_first_line :: bool
  is_second_line :: bool

definition init_flags :: flags where
  "init_flags = \<lparr>is_first_line = True, is_second_line = False\<rparr>"

text \<open>
  One iteration of the loop over the lines: the flowable appended to \<open>elements\<close> and
  the flags afterwards.
\<close>

definition process_line :: "unicode_case \<Rightarrow> flags \<Rightarrow> ustring \<Rightarrow> flowable \<times> flags" where
  "process_line db fl raw =
     (let line = py_strip raw in
      if line = [] then (Spacer 1 (0.08 * inch), fl)
      else
        let line_escaped = escape line in
        if is_first_line fl \<and> length line < 80 then
          (Paragraph line_escaped name_style, fl\<lparr>is_first_line := False, is_second_line := True\<rparr>)
        else if is_second_line fl \<and> py_contains [vbar] line then
          (Paragraph line_escaped contact_style, fl\<lparr>is_second_line := False\<rparr>)
        else if py_isupper db line \<and> length line > 3 \<and> length line < 50 then
          (Paragraph line_escaped heading_style, fl)
        else if py_contains [em_dash] line \<and> \<not> py_startswith line [bullet_glyph] then
          (Paragraph line_escaped subheading_style, fl)
        else if py_startswith line [bullet_glyph] then
          (Paragraph line_escaped bullet_style, fl)
        else if py_contains [vbar] line \<and> list_ex (\<lambda>month. py_contains month line) month_tokens then
          (Paragraph line_escaped normal_style, fl)
        else
          (Paragraph line_escaped normal_style, fl))"

text \<open>The loop: each line appends exactly one flowable; the flags are threaded through.\<close>

fun loop_lines ::
  "(flags \<Rightarrow> ustring \<Rightarrow> flowable \<times> flags) \<Rightarrow> flags \<Rightarrow> ustring list \<Rightarrow> flowable list" where
  "loop_lines step fl [] = []"
| "loop_lines step fl (raw # rest) =
     (case step fl raw of (e, fl') \<Rightarrow> e # loop_lines step fl' rest)"

fun flags_after :: "(flags \<Rightarrow> ustring \<Rightarrow> flowable \<times> flags) \<Rightarrow> flags \<Rightarrow> ustring list \<Rightarrow> flags" where
  "flags_after step fl [] = fl"
| "flags_after step fl (raw # rest) = flags_after step (snd (step fl raw)) rest"

text \<open>
  The document handed to \<open>doc.build\<close>: the template's page geometry and the
  flowables. \<open>full_name\<close> is a parameter the function does not read.
\<close>

record document =
  pagesize :: "real \<times> real"
  rightMargin :: real
  leftMargin :: real
  topMargin :: real
  bottomMargin :: real
  elements :: "flowable list"

definition create_pdf :: "unicode_case \<Rightarrow> ustring \<Rightarrow> ustring \<Rightarrow> document" where
  "create_pdf db resume_text full_name =
     \<lparr>pagesize = letter,
      rightMargin = 0.75 * inch, leftMargin = 0.75 * inch,
      topMargin = 0.75 * inch, bottomMargin = 0.75 * inch,
      elements = loop_lines (process_line db) init_flags (py_split newline resume_text)\<rparr>"

definition roles :: "unicode_case \<Rightarrow> ustring \<Rightarrow> role list" where
  "roles db resume_text = map role_of (elements (create_pdf db resume_text []))"

definition is_blank :: "ustring \<Rightarrow> bool" where
  "is_blank raw = (py_strip raw = [])"

definition name_candidate :: "ustring \<Rightarrow> bool" where
  "name_candidate raw = (py_strip raw \<noteq> [] \<and> length (py_strip raw) < 80)"

text \<open>
  The variant of the loop body asked about for the date and location lines: the same
  chain with the branch for \<open>|\<close> plus a month token removed, so that such lines take
  the final \<open>else\<close>.
\<close>

definition process_line_no_date_branch ::
  "unicode_case \<Rightarrow> flags \<Rightarrow> ustring \<Rightarrow> flowable \<times> flags" where
  "process_line_no_date_branch db fl raw =
     (let line = py_strip raw in
      if line = [] then (Spacer 1 (0.08 * inch), fl)
      else
        let line_escaped = escape line in
        if is_first_line fl \<and> length line < 80 then
          (Paragraph line_escaped name_style, fl\<lparr>is_first_line := False, is_second_line := True\<rparr>)
        else if is_second_line fl \<and> py_contains [vbar] line then
          (Paragraph line_escaped contact_style, fl\<lparr>is_second_line := False\<rparr>)
        else if py_isupper db line \<and> length line > 3 \<and> length line < 50 then
          (Paragraph line_escaped heading_style, fl)
        else if py_contains [em_dash] line \<and> \<not> py_startswith line [bullet_glyph] then
          (Paragraph line_escaped subheading_style, fl)
        else if py_startswith line [bullet_glyph] then
          (Paragraph line_escaped bullet_style, fl)
        else
          (Paragraph line_escaped normal_style, fl))"

definition create_pdf_no_date_branch :: "unicode_case \<Rightarrow> ustring \<Rightarrow> ustring \<Rightarrow> document" where
  "create_pdf_no_date_branch db resume_text full_name =
     \<lparr>pagesize = letter,
      rightMargin = 0.75 * inch, leftMargin = 0.75 * inch,
      topMargin = 0.75 * inch, bottomMargin = 0.75 * inch,
      elements = loop_lines (process_line_no_date_branch db) init_flags (py_split newline resume_text)\<rparr>"

text \<open>
  The variant asked about for escaping: the same chain with every test of the line
  (length bounds, upper-case test, \<open>|\<close>, em-dash, bullet, month tokens) evaluated on
  the escaped text instead of the trimmed line.
\<close>

definition process_line_on_escaped ::
  "unicode_case \<Rightarrow> flags \<Rightarrow> ustring \<Rightarrow> flowable \<times> flags" where
  "process_line_on_escaped db fl raw =
     (let line = py_strip raw in
      if line = [] then (Spacer 1 (0.08 * inch), fl)
      else
        let line_escaped = escape line in
        if is_first_line fl \<and> length line_escaped < 80 then
          (Paragraph line_escaped name_style, fl\<lparr>is_first_line := False, is_second_line := True\<rparr>)
        else if is_second_line fl \<and> py_contains [vbar] line_escaped then
          (Paragraph line_escaped contact_style, fl\<lparr>is_second_line := False\<rparr>)
        else if py_isupper db line_escaped \<and> length line_escaped > 3 \<and> length line_escaped < 50 then
          (Paragraph line_escaped heading_style, fl)
        else if py_contains [em_dash] line_escaped \<and> \<not> py_startswith line_escaped [bullet_glyph] then
          (Paragraph line_escaped subheading_style, fl)
        else if py_startswith line_escaped [bullet_glyph] then
          (Paragraph line_escaped bullet_style, fl)
        else if py_contains [vbar] line_escaped
                \<and> list_ex (\<lambda>month. py_contains month line_escaped) month_tokens then
          (Paragraph line_escaped normal_style, fl)
        else
          (Paragraph line_escaped normal_style, fl))"

text \<open>The replacement of one character by the three passes of \<open>escape\<close>.\<close>

definition escape_char :: "nat \<Rightarrow> ustring" where
  "escape_char c =
     (if c = 38 then ustr ''&amp;'' else if c = 60 then ustr ''&lt;''
      else if c = 62 then ustr ''&gt;'' else [c])"

text \<open>Two case tables that agree on a set of code points.\<close>

definition case_agree :: "unicode_case \<Rightarrow> unicode_case \<Rightarrow> nat set \<Rightarrow> bool" where
  "case_agree db db' S =
     (\<forall>c\<in>S. ch_isupper db c = ch_isupper db' c \<and> ch_islower db c = ch_islower db' c
            \<and> ch_istitle db c = ch_istitle db' c)"

definition uncased :: "unicode_case \<Rightarrow> nat \<Rightarrow> bool" where
  "uncased db c = (\<not> ch_isupper db c \<and> \<not> ch_islower db c \<and> \<not> ch_istitle db c)"

section \<open>Inputs used below\<close>

definition scenario_A :: ustring where
  "scenario_A =
     ustr ''JANE DOE'' @ [newline]
     @ ustr ''New York, NY | 555-1234 | jane@x.com'' @ [newline, newline]
     @ ustr ''PROFESSIONAL SUMMARY'' @ [newline]
     @ ustr ''Experienced engineer.'' @ [newline, newline]
     @ ustr ''EXPERIENCE'' @ [newline]
     @ ustr ''Software Engineer '' @ [em_dash] @ ustr '' Acme Corp'' @ [newline]
     @ ustr ''NYC | 01/2020 '' @ [en_dash] @ ustr '' Present'' @ [newline]
     @ [bullet_glyph] @ ustr '' Built things'' @ [newline]"

definition long_first_line_text :: ustring where
  "long_first_line_text = replicate 80 65 @ [newline] @ ustr ''BOB''"

definition blank_after_name_text :: ustring where
  "blank_after_name_text = ustr ''JANE'' @ [newline, newline] @ ustr ''NYC | 555''"

definition ampersand_header_text :: ustring where
  "ampersand_header_text = ustr ''JANE DOE'' @ [newline] @ ustr ''R&D SKILLS''"

definition upper_dash_text :: ustring where
  "upper_dash_text = replicate 89 65 @ [em_dash]"

definition upper_dash_header :: ustring where
  "upper_dash_header = ustr ''SKILLS '' @ [em_dash] @ ustr '' TOOLS''"

definition steady_flags :: flags where
  "steady_flags = \<lparr>is_first_line = False, is_second_line = False\<rparr>"

definition upper_plain_text :: ustring where
  "upper_plain_text = replicate 90 65"

definition digits_line :: ustring where
  "digits_line = ustr ''2019 - 2023''"

definition markup_line :: ustring where
  "markup_line = ustr ''<b>R&D</b>''"


definition long_ampersand_line :: ustring where
  "long_ampersand_line = replicate 78 97 @ [38]"

section \<open>String methods\<close>

lemmas char_defs = ustr_def em_dash_def en_dash_def bullet_glyph_def newline_def vbar_def

lemmas run_defs = process_line_def init_flags_def py_strip_def py_isspace_def py_isupper_def
  ascii_case_def py_startswith_def escape_def py_replace_def month_tokens_def Let_def

lemma py_contains_single: "py_contains [c] s = (c \<in> set s)"
  by (induction s) (auto simp: py_startswith_def)

lemma py_startswith_single: "py_startswith s [c] = (s \<noteq> [] \<and> hd s = c)"
  by (cases s) (auto simp: py_startswith_def)

lemma py_split_no_sep: "sep \<notin> set a \<Longrightarrow> py_split sep a = [a]"
  by (induction a) auto

lemma py_split_append:
  "sep \<notin> set a \<Longrightarrow> py_split sep (a @ sep # b) = a # py_split sep b"
  by (induction a) auto

lemma set_py_split: "l \<in> set (py_split sep s) \<Longrightarrow> set l \<subseteq> set s"
proof (induction s arbitrary: l)
  case Nil
  then show ?case by simp
next
  case (Cons c cs)
  then show ?case by (fastforce split: if_splits list.splits)
qed



lemma set_py_strip_subset: "set (py_strip s) \<subseteq> set s"
proof
  fix c assume "c \<in> set (py_strip s)"
  then have "c \<in> set (dropWhile py_isspace (rev (dropWhile py_isspace s)))"
    by (simp add: py_strip_def)
  then have "c \<in> set (rev (dropWhile py_isspace s))" by (rule set_dropWhileD)
  then have "c \<in> set (dropWhile py_isspace s)" by simp
  then show "c \<in> set s" by (rule set_dropWhileD)
qed

lemma py_strip_id:
  assumes "s \<noteq> []" and "\<not> py_isspace (hd s)" and "\<not> py_isspace (last s)"
  shows "py_strip s = s"
proof -
  from assms(1,2) have "dropWhile py_isspace s = s" by (cases s) auto
  moreover from assms(1,3) have "dropWhile py_isspace (rev s) = rev s"
    by (cases "rev s") (auto simp: last_rev [symmetric] simp del: last_rev)
  ultimately show ?thesis by (simp add: py_strip_def)
qed


lemma not_upper_if_uncased:
  assumes "\<forall>c\<in>set s. uncased db c"
  shows "\<not> py_isupper db s"
proof (cases s)
  case Nil
  then show ?thesis by (simp add: py_isupper_def)
next
  case (Cons c cs)
  with assms show ?thesis
    by (auto simp: py_isupper_def uncased_def list_ex_iff)
qed

lemma py_isupper_agree:
  assumes "case_agree db db' (set s)"
  shows "py_isupper db s = py_isupper db' s"
proof (cases s)
  case Nil
  then show ?thesis by (simp add: py_isupper_def)
next
  case (Cons c cs)
  with assms show ?thesis
    by (auto simp: py_isupper_def case_agree_def list_ex_iff list_all_iff)
qed

lemma case_agree_subset: "case_agree db db' S \<Longrightarrow> T \<subseteq> S \<Longrightarrow> case_agree db db' T"
  by (auto simp: case_agree_def)

section \<open>Escaping\<close>

lemma py_replace_append:
  "py_replace old new (a @ b) = py_replace old new a @ py_replace old new b"
  by (simp add: py_replace_def)

lemma escape_single: "escape [c] = escape_char c"
  by (simp add: escape_def escape_char_def py_replace_def ustr_def)

lemma escape_Nil: "escape [] = []"
  by (simp add: escape_def py_replace_def)

lemma escape_append: "escape (a @ b) = escape a @ escape b"
  by (simp add: escape_def py_replace_append)

lemma escape_Cons: "escape (c # s) = escape_char c @ escape s"
  using escape_append [of "[c]" s] by (simp add: escape_single)

lemma escape_concat: "escape s = concat (map escape_char s)"
  by (induction s) (simp_all add: escape_Nil escape_Cons)

lemma no_markup_char: "60 \<notin> set (escape s) \<and> 62 \<notin> set (escape s)"
  by (induction s) (auto simp: escape_Nil escape_Cons escape_char_def ustr_def split: if_splits)

lemma plain_in_escape:
  assumes "c \<noteq> 38" "c \<noteq> 60" "c \<noteq> 62" "c \<notin> set (ustr ''amp;lt;gt;'')"
  shows "(c \<in> set (escape s)) = (c \<in> set s)"
  using assms
  by (induction s) (auto simp: escape_Nil escape_Cons escape_char_def ustr_def split: if_splits)

lemma startswith_escape:
  assumes "c \<noteq> 38" "c \<noteq> 60" "c \<noteq> 62"
  shows "py_startswith (escape s) [c] = py_startswith s [c]"
proof (cases s)
  case Nil
  then show ?thesis by (simp add: escape_Nil)
next
  case (Cons d ds)
  with assms show ?thesis
    by (auto simp: escape_Cons escape_char_def ustr_def py_startswith_def)
qed

lemma escape_plain: "set s \<inter> {38, 60, 62} = {} \<Longrightarrow> escape s = s"
  by (induction s) (auto simp: escape_Nil escape_Cons escape_char_def)

lemma length_escape_char: "1 \<le> length (escape_char c)"
  by (simp add: escape_char_def ustr_def)

lemma length_escape_char_special: "c \<in> {38, 60, 62} \<Longrightarrow> 4 \<le> length (escape_char c)"
  by (auto simp: escape_char_def ustr_def)

lemma length_escape_le: "length s \<le> length (escape s)"
proof (induction s)
  case Nil
  then show ?case by (simp add: escape_Nil)
next
  case (Cons c s)
  with length_escape_char [of c] show ?case by (simp add: escape_Cons)
qed

lemma length_escape_less:
  "set s \<inter> {38, 60, 62} \<noteq> {} \<Longrightarrow> length s < length (escape s)"
proof (induction s)
  case Nil
  then show ?case by simp
next
  case (Cons c s)
  show ?case
  proof (cases "c \<in> {38, 60, 62}")
    case True
    from length_escape_char_special [OF True] length_escape_le [of s]
    show ?thesis by (simp add: escape_Cons)
  next
    case False
    with Cons.prems have "set s \<inter> {38, 60, 62} \<noteq> {}" by auto
    from Cons.IH [OF this] length_escape_char [of c] show ?thesis
      by (simp add: escape_Cons)
  qed
qed

lemma lower_letter_in_escape:
  "set s \<inter> {38, 60, 62} \<noteq> {} \<Longrightarrow> 97 \<in> set (escape s) \<or> 116 \<in> set (escape s)"
proof (induction s)
  case Nil
  then show ?case by simp
next
  case (Cons c s)
  show ?case
  proof (cases "c \<in> {38, 60, 62}")
    case True
    then have "97 \<in> set (escape_char c) \<or> 116 \<in> set (escape_char c)"
      by (auto simp: escape_char_def ustr_def)
    then show ?thesis by (auto simp: escape_Cons)
  next
    case False
    with Cons.prems have "set s \<inter> {38, 60, 62} \<noteq> {}" by auto
    from Cons.IH [OF this] show ?thesis by (auto simp: escape_Cons)
  qed
qed

lemma escape_not_upper:
  assumes "set s \<inter> {38, 60, 62} \<noteq> {}" and "ch_islower db 97" and "ch_islower db 116"
  shows "\<not> py_isupper db (escape s)"
proof -
  from assms(1) have "s \<noteq> []" by auto
  then have "1 \<le> length s" by (cases s) auto
  with length_escape_less [OF assms(1)] have "length (escape s) \<noteq> 1" by simp
  moreover from lower_letter_in_escape [OF assms(1)] assms(2,3)
  have "\<exists>c\<in>set (escape s). ch_islower db c" by auto
  ultimately show ?thesis by (auto simp: py_isupper_def list_all_iff)
qed

section \<open>The loop\<close>

lemma length_loop_lines: "length (loop_lines step fl ls) = length ls"
  by (induction ls arbitrary: fl) (auto split: prod.splits)

lemma loop_lines_nth:
  "i < length ls \<Longrightarrow>
   loop_lines step fl ls ! i = fst (step (flags_after step fl (take i ls)) (ls ! i))"
proof (induction ls arbitrary: fl i)
  case Nil
  then show ?case by simp
next
  case (Cons raw rest)
  show ?case
  proof (cases i)
    case 0
    then show ?thesis by (simp split: prod.splits)
  next
    case (Suc j)
    with Cons show ?thesis by (simp split: prod.splits)
  qed
qed



lemma all_take_nth:
  "i \<le> length ls \<Longrightarrow> (\<forall>l\<in>set (take i ls). P l) = (\<forall>j<i. P (ls ! j))"
  by (auto simp: all_set_conv_all_nth)

lemma roles_nth:
  "i < length (py_split newline t) \<Longrightarrow>
   roles db t ! i =
     role_of (fst (process_line db
        (flags_after (process_line db) init_flags (take i (py_split newline t)))
        (py_split newline t ! i)))"
  by (simp add: roles_def create_pdf_def length_loop_lines loop_lines_nth)

lemma process_line_agree:
  assumes "case_agree db db' (set raw)"
  shows "process_line db fl raw = process_line db' fl raw"
proof -
  from case_agree_subset [OF assms set_py_strip_subset]
  have "py_isupper db (py_strip raw) = py_isupper db' (py_strip raw)"
    by (rule py_isupper_agree)
  then show ?thesis by (auto simp: process_line_def Let_def)
qed

lemma loop_lines_agree:
  "\<forall>l\<in>set ls. case_agree db db' (set l) \<Longrightarrow>
   loop_lines (process_line db) fl ls = loop_lines (process_line db') fl ls"
  by (induction ls arbitrary: fl) (auto simp: process_line_agree split: prod.splits)

lemma roles_agree:
  assumes "case_agree db db' (set t)"
  shows "roles db t = roles db' t"
proof -
  have "\<forall>l\<in>set (py_split newline t). case_agree db db' (set l)"
    using assms set_py_split [of _ newline t] by (blast intro: case_agree_subset)
  from loop_lines_agree [OF this] show ?thesis
    by (simp add: roles_def create_pdf_def)
qed

subsection \<open>The role of a non-blank line\<close>

lemma process_line_role:
  assumes "line = py_strip raw" and "line \<noteq> []"
  shows "role_of (fst (process_line db fl raw)) =
     (if is_first_line fl \<and> length line < 80 then Name
      else if is_second_line fl \<and> vbar \<in> set line then ContactLine
      else if py_isupper db line \<and> 3 < length line \<and> length line < 50 then SectionHeader
      else if em_dash \<in> set line \<and> hd line \<noteq> bullet_glyph then SubHeading
      else if hd line = bullet_glyph then Bullet
      else Body)"
  using assms
  by (simp add: process_line_def Let_def py_contains_single py_startswith_single)

lemma process_line_on_escaped_role:
  assumes "line = py_strip raw" and "line \<noteq> []" and "esc = escape line"
  shows "role_of (fst (process_line_on_escaped db fl raw)) =
     (if is_first_line fl \<and> length esc < 80 then Name
      else if is_second_line fl \<and> vbar \<in> set esc then ContactLine
      else if py_isupper db esc \<and> 3 < length esc \<and> length esc < 50 then SectionHeader
      else if em_dash \<in> set esc \<and> \<not> py_startswith esc [bullet_glyph] then SubHeading
      else if py_startswith esc [bullet_glyph] then Bullet
      else Body)"
  using assms
  by (simp add: process_line_on_escaped_def Let_def py_contains_single)

subsection \<open>The flag is_first_line\<close>

lemma process_line_Name:
  "(role_of (fst (process_line db fl raw)) = Name) = (is_first_line fl \<and> name_candidate raw)"
  by (auto simp: process_line_def Let_def name_candidate_def)

lemma process_line_first:
  "is_first_line (snd (process_line db fl raw)) = (is_first_line fl \<and> \<not> name_candidate raw)"
  by (auto simp: process_line_def Let_def name_candidate_def)

lemma flags_after_first:
  "is_first_line (flags_after (process_line db) fl ls)
     = (is_first_line fl \<and> (\<forall>l\<in>set ls. \<not> name_candidate l))"
  by (induction ls arbitrary: fl) (auto simp: process_line_first)

lemma flags_after_blank:
  "\<forall>l\<in>set ls. is_blank l \<Longrightarrow> flags_after (process_line db) fl ls = fl"
  by (induction ls arbitrary: fl) (auto simp: process_line_def is_blank_def)

subsection \<open>The flag is_second_line\<close>









section \<open>The inputs, evaluated\<close>

lemma split_scenario_A:
  "py_split newline scenario_A =
   [ustr ''JANE DOE'', ustr ''New York, NY | 555-1234 | jane@x.com'', [],
    ustr ''PROFESSIONAL SUMMARY'', ustr ''Experienced engineer.'', [],
    ustr ''EXPERIENCE'', ustr ''Software Engineer '' @ [em_dash] @ ustr '' Acme Corp'',
    ustr ''NYC | 01/2020 '' @ [en_dash] @ ustr '' Present'',
    [bullet_glyph] @ ustr '' Built things'', []]"
  by (simp add: scenario_A_def char_defs)

lemma roles_scenario_A:
  "roles ascii_case scenario_A =
     [Name, ContactLine, Blank, SectionHeader, Body, Blank, SectionHeader,
      SubHeading, Body, Bullet, Blank]"
  unfolding roles_def create_pdf_def
  by (simp add: split_scenario_A) (simp add: run_defs char_defs)

lemma split_long_first:
  "py_split newline long_first_line_text = [replicate 80 65, ustr ''BOB'']"
  unfolding long_first_line_text_def
  by (simp add: py_split_append char_defs)

lemma strip_long_first: "py_strip (replicate 80 65) = replicate 80 65"
  by (rule py_strip_id) (simp_all add: py_isspace_def)

lemma split_blank_after_name:
  "py_split newline blank_after_name_text = [ustr ''JANE'', [], ustr ''NYC | 555'']"
  by (simp add: blank_after_name_text_def char_defs)

lemma split_ampersand:
  "py_split newline ampersand_header_text = [ustr ''JANE DOE'', ustr ''R&D SKILLS'']"
  by (simp add: ampersand_header_text_def char_defs)


section \<open>The claims\<close>

text \<open>
  C1, as amended. The style of the name is given to exactly one kind of line: the
  first line that is non-blank and whose trimmed length is below 80 (the first
  non-blank line, when that line is shorter than 80 characters). The flag
  \<open>is_first_line\<close> is true exactly until such a line has been processed; once
  cleared it is never set again, so no line after the Name line is a Name.
\<close>

theorem name_only_first_short_line:
  assumes "i < length (py_split newline t)"
  shows "((roles db t ! i = Name)
            = (name_candidate (py_split newline t ! i)
               \<and> (\<forall>j<i. \<not> name_candidate (py_split newline t ! j))))
     \<and> (is_first_line (flags_after (process_line db) init_flags (take i (py_split newline t)))
            = (\<forall>j<i. \<not> name_candidate (py_split newline t ! j)))
     \<and> (\<not> is_first_line fl \<longrightarrow> \<not> is_first_line (snd (process_line db fl raw)))
     \<and> (roles db t ! i = Name \<longrightarrow>
          (\<forall>k. i < k \<and> k < length (py_split newline t) \<longrightarrow> roles db t ! k \<noteq> Name))"
proof -
  let ?ls = "py_split newline t"
  from assms have le: "i \<le> length ?ls" by simp
  have flag: "is_first_line (flags_after (process_line db) init_flags (take i ?ls))
           = (\<forall>j<i. \<not> name_candidate (?ls ! j))"
    using all_take_nth [OF le] by (simp add: flags_after_first init_flags_def)
  have char: "(roles db t ! i = Name)
           = (name_candidate (?ls ! i) \<and> (\<forall>j<i. \<not> name_candidate (?ls ! j)))"
    using assms flag by (auto simp: roles_nth process_line_Name)
  have mono: "\<not> is_first_line fl \<longrightarrow> \<not> is_first_line (snd (process_line db fl raw))"
    by (simp add: process_line_first)
  have later: "roles db t ! i = Name \<longrightarrow>
           (\<forall>k. i < k \<and> k < length ?ls \<longrightarrow> roles db t ! k \<noteq> Name)"
  proof (intro allI impI)
    fix k
    assume n: "roles db t ! i = Name" and k: "i < k \<and> k < length ?ls"
    from n char have c: "name_candidate (?ls ! i)" by simp
    from k have "k \<le> length ?ls" by simp
    from all_take_nth [OF this] c k
    have "\<not> is_first_line (flags_after (process_line db) init_flags (take k ?ls))"
      by (auto simp: flags_after_first)
    with k show "roles db t ! k \<noteq> Name"
      by (simp add: roles_nth process_line_Name)
  qed
  show ?thesis by (intro conjI char flag mono later)
qed

theorem name_only_first_short_line_witness:
  "0 < length (py_split newline scenario_A)
   \<and> name_candidate (py_split newline scenario_A ! 0)
   \<and> roles ascii_case scenario_A ! 0 = Name
   \<and> roles ascii_case scenario_A ! 3 \<noteq> Name"
proof -
  have h: "0 < length (py_split newline scenario_A)"
    by (simp add: split_scenario_A)
  have c: "name_candidate (py_split newline scenario_A ! 0)"
    by (simp add: split_scenario_A name_candidate_def py_strip_def py_isspace_def ustr_def)
  from name_only_first_short_line [OF h, of ascii_case steady_flags "[]"] c
  have "roles ascii_case scenario_A ! 0 = Name"
    and "\<forall>k. 0 < k \<and> k < length (py_split newline scenario_A)
           \<longrightarrow> roles ascii_case scenario_A ! k \<noteq> Name"
    by simp_all
  moreover have "(3::nat) < length (py_split newline scenario_A)"
    by (simp add: split_scenario_A)
  ultimately show ?thesis using h c by simp
qed

text \<open>
  C1 as stated fails: in the text made of a line of 80 letters \<open>A\<close> and the line
  \<open>BOB\<close>, the first non-blank line is too long for a Name, the flag stays true
  after it, and the second line is the Name.
\<close>

theorem name_on_second_line_counterexample:
  "\<not> is_blank (py_split newline long_first_line_text ! 0)
   \<and> roles ascii_case long_first_line_text = [Body, Name]
   \<and> is_first_line (flags_after (process_line ascii_case) init_flags
        (take 1 (py_split newline long_first_line_text)))"
  unfolding roles_def create_pdf_def is_blank_def
  by (simp add: split_long_first)
     (simp add: process_line_def Let_def strip_long_first init_flags_def py_contains_single
        py_startswith_single py_isupper_def ascii_case_def char_defs py_strip_def py_isspace_def
        list_all_iff list_ex_iff)




text \<open>
  C3. For every input text, \<open>create_pdf\<close> appends exactly one flowable, hence one
  role, per line of \<open>resume_text.split\<close>: as many items as lines, and a line is
  Blank exactly when it is empty after trimming. The loop is a total function.
\<close>

theorem classification_total:
  "length (elements (create_pdf db t nm)) = length (py_split newline t)
   \<and> length (roles db t) = length (py_split newline t)
   \<and> 0 < length (py_split newline t)
   \<and> (\<forall>i < length (py_split newline t).
         (roles db t ! i = Blank) = (py_strip (py_split newline t ! i) = []))"
proof -
  have "py_split newline t \<noteq> []"
    by (induction t) (auto split: list.splits)
  moreover have "(role_of (fst (process_line db fl raw)) = Blank) = (py_strip raw = [])"
    for fl raw
    by (simp add: process_line_def Let_def)
  ultimately show ?thesis
    by (simp add: create_pdf_def roles_def length_loop_lines loop_lines_nth)
qed

theorem classification_total_witness:
  "length (roles ascii_case blank_after_name_text) = 3
   \<and> py_strip (py_split newline blank_after_name_text ! 1) = []
   \<and> roles ascii_case blank_after_name_text ! 1 = Blank"
proof -
  have l: "length (py_split newline blank_after_name_text) = 3"
    by (simp add: split_blank_after_name)
  have b: "py_strip (py_split newline blank_after_name_text ! 1) = []"
    by (simp add: split_blank_after_name py_strip_def)
  from classification_total [of ascii_case blank_after_name_text "[]"] l b
  show ?thesis by simp
qed

text \<open>
  C4, as amended. The input of scenario A ends with a newline, so \<open>split\<close> gives
  eleven lines, the last one empty: the roles are the ten of the scenario followed
  by a Blank. This holds for every case table that agrees with ASCII on the
  characters of the input.
\<close>

theorem scenario_A_roles:
  assumes "case_agree db ascii_case (set scenario_A)"
  shows "roles db scenario_A =
     [Name, ContactLine, Blank, SectionHeader, Body, Blank, SectionHeader,
      SubHeading, Body, Bullet, Blank]"
  using roles_agree [OF assms] roles_scenario_A by simp

theorem scenario_A_roles_witness:
  "length (roles ascii_case scenario_A) = 11
   \<and> roles ascii_case scenario_A =
     [Name, ContactLine, Blank, SectionHeader, Body, Blank, SectionHeader,
      SubHeading, Body, Bullet, Blank]"
proof -
  have h: "case_agree ascii_case ascii_case (set scenario_A)"
    by (simp add: case_agree_def)
  from scenario_A_roles [OF h] show ?thesis by simp
qed

text \<open>
  C4 as stated fails: the role sequence of scenario A is not the list of ten
  roles; the input has eleven lines and the eleventh is a Blank.
\<close>

theorem scenario_A_ten_roles_counterexample:
  "roles ascii_case scenario_A \<noteq>
     [Name, ContactLine, Blank, SectionHeader, Body, Blank, SectionHeader,
      SubHeading, Body, Bullet]
   \<and> length (py_split newline scenario_A) = 11
   \<and> roles ascii_case scenario_A ! 10 = Blank"
  by (simp add: roles_scenario_A split_scenario_A)

text \<open>
  C5. A line on which neither the Name rule nor the ContactLine rule fires, whose
  trimmed text is upper-case with length strictly between 3 and 50 and contains an
  em-dash, gets the heading style: it is a SectionHeader, not a SubHeading.
\<close>

theorem upper_case_precedes_em_dash:
  assumes "line = py_strip raw"
    and "\<not> (is_first_line fl \<and> length line < 80)"
    and "\<not> (is_second_line fl \<and> vbar \<in> set line)"
    and "py_isupper db line" and "3 < length line" and "length line < 50"
    and "em_dash \<in> set line"
  shows "process_line db fl raw = (Paragraph (escape line) heading_style, fl)
         \<and> role_of (fst (process_line db fl raw)) = SectionHeader
         \<and> role_of (fst (process_line db fl raw)) \<noteq> SubHeading"
proof -
  from assms(1,5) have "py_strip raw \<noteq> []" by auto
  with assms show ?thesis
    by (simp add: process_line_def Let_def py_contains_single)
qed

theorem upper_case_precedes_em_dash_witness:
  "process_line ascii_case steady_flags upper_dash_header
     = (Paragraph (escape upper_dash_header) heading_style, steady_flags)
   \<and> em_dash \<in> set upper_dash_header \<and> py_isupper ascii_case upper_dash_header"
proof -
  have s: "py_strip upper_dash_header = upper_dash_header"
    by (simp add: py_strip_def upper_dash_header_def ustr_def py_isspace_def em_dash_def)
  have a: "\<not> (is_first_line steady_flags \<and> length upper_dash_header < 80)"
    by (simp add: steady_flags_def)
  have b: "\<not> (is_second_line steady_flags \<and> vbar \<in> set upper_dash_header)"
    by (simp add: steady_flags_def)
  have c: "py_isupper ascii_case upper_dash_header"
    by (simp add: py_isupper_def upper_dash_header_def ustr_def ascii_case_def em_dash_def)
  have d: "3 < length upper_dash_header" "length upper_dash_header < 50"
    by (simp_all add: upper_dash_header_def ustr_def)
  have e: "em_dash \<in> set upper_dash_header" by (simp add: upper_dash_header_def)
  from upper_case_precedes_em_dash [OF s [symmetric] a b c d e] c e show ?thesis by simp
qed

text \<open>
  C6, as amended. For every non-blank line the emitted text is the trimmed line with
  \<open>&\<close>, \<open><\<close>, \<open>>\<close> replaced by \<open>&amp;\<close>, \<open>&lt;\<close>, \<open>&gt;\<close>, so that no
  \<open><\<close> or \<open>>\<close> is left in it, and the role is the one the chain of tests gives
  on the unescaped trimmed line. The tests for \<open>|\<close>, the em-dash and the leading
  bullet give the same answer on the escaped text, and on a line without \<open>&\<close>,
  \<open><\<close>, \<open>>\<close> the chain run on the escaped text is the same function. On a
  line with one of them the escaped text is strictly longer and, \<open>a\<close> and \<open>t\<close>
  being lower-case, not upper-case: a line that is a Name only because its unescaped
  length is below 80 is not a Name on the escaped text, and a SectionHeader is a
  SubHeading, Bullet or Body line on the escaped text.
\<close>

theorem escaping_of_emitted_text:
  assumes "line = py_strip raw" and "line \<noteq> []"
  shows "text_of (fst (process_line db fl raw)) = Some (escape line)
     \<and> escape line = concat (map escape_char line)
     \<and> 60 \<notin> set (escape line) \<and> 62 \<notin> set (escape line)
     \<and> role_of (fst (process_line db fl raw)) =
         (if is_first_line fl \<and> length line < 80 then Name
          else if is_second_line fl \<and> vbar \<in> set line then ContactLine
          else if py_isupper db line \<and> 3 < length line \<and> length line < 50 then SectionHeader
          else if em_dash \<in> set line \<and> hd line \<noteq> bullet_glyph then SubHeading
          else if hd line = bullet_glyph then Bullet
          else Body)
     \<and> (vbar \<in> set (escape line)) = (vbar \<in> set line)
     \<and> (em_dash \<in> set (escape line)) = (em_dash \<in> set line)
     \<and> py_startswith (escape line) [bullet_glyph] = py_startswith line [bullet_glyph]
     \<and> (set line \<inter> {38, 60, 62} = {} \<longrightarrow>
          process_line_on_escaped db fl raw = process_line db fl raw)
     \<and> (set line \<inter> {38, 60, 62} \<noteq> {} \<longrightarrow> length line < length (escape line))
     \<and> (set line \<inter> {38, 60, 62} \<noteq> {} \<and> ch_islower db 97 \<and> ch_islower db 116 \<longrightarrow>
          \<not> py_isupper db (escape line))
     \<and> (is_first_line fl \<and> length line < 80 \<and> 80 \<le> length (escape line) \<longrightarrow>
          role_of (fst (process_line db fl raw)) = Name
          \<and> role_of (fst (process_line_on_escaped db fl raw)) \<noteq> Name)
     \<and> (set line \<inter> {38, 60, 62} \<noteq> {} \<and> ch_islower db 97 \<and> ch_islower db 116
          \<and> role_of (fst (process_line db fl raw)) = SectionHeader \<longrightarrow>
          role_of (fst (process_line_on_escaped db fl raw)) \<in> {SubHeading, Bullet, Body})"
proof -
  let ?r = "role_of (fst (process_line db fl raw))"
  let ?e = "role_of (fst (process_line_on_escaped db fl raw))"
  note re = process_line_on_escaped_role [OF assms refl, of db fl]
  have t: "text_of (fst (process_line db fl raw)) = Some (escape line)"
    using assms by (simp add: process_line_def Let_def)
  have v: "(vbar \<in> set (escape line)) = (vbar \<in> set line)"
    by (rule plain_in_escape) (simp_all add: char_defs)
  have e: "(em_dash \<in> set (escape line)) = (em_dash \<in> set line)"
    by (rule plain_in_escape) (simp_all add: char_defs)
  have w: "py_startswith (escape line) [bullet_glyph] = py_startswith line [bullet_glyph]"
    by (rule startswith_escape) (simp_all add: char_defs)
  have p: "set line \<inter> {38, 60, 62} = {} \<longrightarrow>
          process_line_on_escaped db fl raw = process_line db fl raw"
  proof
    assume "set line \<inter> {38, 60, 62} = {}"
    then have "escape line = line" by (rule escape_plain)
    with assms show "process_line_on_escaped db fl raw = process_line db fl raw"
      by (simp add: process_line_on_escaped_def process_line_def Let_def)
  qed
  from no_markup_char [of line] have m1: "60 \<notin> set (escape line)" and m2: "62 \<notin> set (escape line)"
    by simp_all
  have l: "set line \<inter> {38, 60, 62} \<noteq> {} \<longrightarrow> length line < length (escape line)"
    using length_escape_less by blast
  have u: "set line \<inter> {38, 60, 62} \<noteq> {} \<and> ch_islower db 97 \<and> ch_islower db 116 \<longrightarrow>
          \<not> py_isupper db (escape line)"
    using escape_not_upper by blast
  have n: "is_first_line fl \<and> length line < 80 \<and> 80 \<le> length (escape line) \<longrightarrow>
          ?r = Name \<and> ?e \<noteq> Name"
    by (simp add: process_line_role [OF assms] re)
  have h: "set line \<inter> {38, 60, 62} \<noteq> {} \<and> ch_islower db 97 \<and> ch_islower db 116
          \<and> ?r = SectionHeader \<longrightarrow> ?e \<in> {SubHeading, Bullet, Body}"
  proof
    assume a: "set line \<inter> {38, 60, 62} \<noteq> {} \<and> ch_islower db 97 \<and> ch_islower db 116
          \<and> ?r = SectionHeader"
    then have nu: "\<not> py_isupper db (escape line)" using u by simp
    from a have "?r = SectionHeader" by simp
    then have c: "\<not> (is_first_line fl \<and> length line < 80)"
        "\<not> (is_second_line fl \<and> vbar \<in> set line)" "length line < 50"
      by (simp_all add: process_line_role [OF assms] split: if_splits)
    from c(1,3) have nf: "\<not> is_first_line fl" by simp
    show "?e \<in> {SubHeading, Bullet, Body}"
      using nu nf c(2) by (simp add: re v)
  qed
  show ?thesis
    by (intro conjI t escape_concat m1 m2 process_line_role [OF assms] v e w p l u n h)
qed

theorem escaping_of_emitted_text_witness:
  "py_strip long_ampersand_line \<noteq> []
   \<and> length (py_strip long_ampersand_line) = 79
   \<and> length (escape (py_strip long_ampersand_line)) = 83
   \<and> role_of (fst (process_line ascii_case init_flags long_ampersand_line)) = Name
   \<and> role_of (fst (process_line_on_escaped ascii_case init_flags long_ampersand_line)) \<noteq> Name
   \<and> text_of (fst (process_line ascii_case steady_flags markup_line))
       = Some (ustr ''&lt;b&gt;R&amp;D&lt;/b&gt;'')"
proof -
  have ms: "markup_line = py_strip markup_line"
    by (simp add: py_strip_def py_isspace_def markup_line_def ustr_def)
  have mn: "markup_line \<noteq> []" by (simp add: markup_line_def ustr_def)
  have me: "escape markup_line = ustr ''&lt;b&gt;R&amp;D&lt;/b&gt;''"
    by (simp add: escape_def py_replace_def markup_line_def ustr_def)
  from escaping_of_emitted_text [OF ms mn, of ascii_case steady_flags] me
  have m: "text_of (fst (process_line ascii_case steady_flags markup_line))
       = Some (ustr ''&lt;b&gt;R&amp;D&lt;/b&gt;'')"
    by simp
  have st: "long_ampersand_line = py_strip long_ampersand_line"
    by (rule py_strip_id [symmetric]) (simp_all add: long_ampersand_line_def py_isspace_def)
  have ne: "long_ampersand_line \<noteq> []" by (simp add: long_ampersand_line_def)
  have l: "length long_ampersand_line = 79" by (simp add: long_ampersand_line_def)
  have "escape (replicate 78 97) = replicate 78 97"
    by (rule escape_plain) simp
  then have le: "length (escape long_ampersand_line) = 83"
    by (simp add: long_ampersand_line_def escape_append escape_single escape_char_def ustr_def)
  have f: "is_first_line init_flags" by (simp add: init_flags_def)
  from escaping_of_emitted_text [OF st ne, of ascii_case init_flags] st [symmetric] ne l le f m
  show ?thesis by simp
qed

text \<open>
  C6 as stated fails in its last part: in \<open>JANE DOE\<close>, \<open>R&D SKILLS\<close> the second
  line is a SectionHeader, and with the tests made on the escaped text
  \<open>R&amp;D SKILLS\<close> it is a Body line, the escape having brought lower-case
  letters in.
\<close>

theorem escaped_predicates_counterexample:
  "map role_of (loop_lines (process_line ascii_case) init_flags
                  (py_split newline ampersand_header_text)) = [Name, SectionHeader]
   \<and> map role_of (loop_lines (process_line_on_escaped ascii_case) init_flags
                  (py_split newline ampersand_header_text)) = [Name, Body]"
  by (simp add: split_ampersand) (simp add: run_defs process_line_on_escaped_def char_defs)

text \<open>
  C7, as amended. When the first non-blank line of the input is upper-case and has
  trimmed length 90, it is not a Name and not a SectionHeader; it is a SubHeading
  when it contains an em-dash and does not start with the bullet glyph, a Bullet when
  it starts with the bullet glyph, and a Body line otherwise.
\<close>

theorem long_upper_first_line:
  assumes "i < length (py_split newline t)"
    and "\<forall>j<i. is_blank (py_split newline t ! j)"
    and "line = py_strip (py_split newline t ! i)"
    and "length line = 90" and "py_isupper db line"
  shows "roles db t ! i \<noteq> Name \<and> roles db t ! i \<noteq> SectionHeader
     \<and> roles db t ! i =
         (if em_dash \<in> set line \<and> hd line \<noteq> bullet_glyph then SubHeading
          else if hd line = bullet_glyph then Bullet else Body)"
proof -
  let ?ls = "py_split newline t"
  from assms(1) have "i \<le> length ?ls" by simp
  from all_take_nth [OF this] assms(2) have "\<forall>l\<in>set (take i ?ls). is_blank l" by simp
  then have fl: "flags_after (process_line db) init_flags (take i ?ls) = init_flags"
    by (rule flags_after_blank)
  from assms(3,4) have ne: "py_strip (?ls ! i) \<noteq> []" by auto
  have r: "roles db t ! i = role_of (fst (process_line db init_flags (?ls ! i)))"
    using assms(1) by (simp add: roles_nth fl)
  show ?thesis
    using ne assms(3,4)
    by (simp add: r process_line_def Let_def init_flags_def py_contains_single
          py_startswith_single)
qed

theorem long_upper_first_line_witness:
  "0 < length (py_split newline upper_plain_text)
   \<and> length (py_strip (py_split newline upper_plain_text ! 0)) = 90
   \<and> py_isupper ascii_case (py_strip (py_split newline upper_plain_text ! 0))
   \<and> roles ascii_case upper_plain_text ! 0 = Body"
proof -
  have sp: "py_split newline upper_plain_text = [upper_plain_text]"
    by (rule py_split_no_sep) (simp add: upper_plain_text_def char_defs)
  have st: "py_strip upper_plain_text = upper_plain_text"
    by (rule py_strip_id) (simp_all add: upper_plain_text_def py_isspace_def)
  have a: "0 < length (py_split newline upper_plain_text)" by (simp add: sp)
  have b: "\<forall>j<0. is_blank (py_split newline upper_plain_text ! j)" by simp
  have c: "upper_plain_text = py_strip (py_split newline upper_plain_text ! 0)"
    by (simp add: sp st)
  have d: "length upper_plain_text = 90" by (simp add: upper_plain_text_def)
  have e: "py_isupper ascii_case upper_plain_text"
    by (simp add: py_isupper_def upper_plain_text_def ascii_case_def list_all_iff list_ex_iff)
  have f: "em_dash \<notin> set upper_plain_text \<and> hd upper_plain_text \<noteq> bullet_glyph"
    by (simp add: upper_plain_text_def char_defs)
  from long_upper_first_line [OF a b c d e] f a d e c show ?thesis by simp
qed

text \<open>
  C7 as stated fails: the single line of 89 letters \<open>A\<close> followed by an em-dash is
  upper-case and 90 characters long, and it is a SubHeading, not a Body line.
\<close>

theorem long_upper_dash_counterexample:
  "length (py_strip (py_split newline upper_dash_text ! 0)) = 90
   \<and> py_isupper ascii_case (py_strip (py_split newline upper_dash_text ! 0))
   \<and> roles ascii_case upper_dash_text = [SubHeading]"
proof -
  have sp: "py_split newline upper_dash_text = [upper_dash_text]"
    by (rule py_split_no_sep) (simp add: upper_dash_text_def char_defs)
  have st: "py_strip upper_dash_text = upper_dash_text"
    by (rule py_strip_id) (simp_all add: upper_dash_text_def py_isspace_def char_defs)
  have up: "py_isupper ascii_case upper_dash_text"
    by (simp add: py_isupper_def upper_dash_text_def ascii_case_def char_defs
          list_all_iff list_ex_iff)
  have "roles ascii_case upper_dash_text = [SubHeading]"
    unfolding roles_def create_pdf_def
    by (simp add: sp process_line_def Let_def st up init_flags_def py_contains_single
          py_startswith_single)
       (simp add: upper_dash_text_def char_defs)
  with sp st up show ?thesis by (simp add: upper_dash_text_def)
qed

text \<open>
  C8. The branch for date and location lines appends the same paragraph with the
  same style as the final \<open>else\<close>: the loop body without that branch is the same
  function, and \<open>create_pdf\<close> built on it returns the same document for every input.
\<close>

theorem date_branch_is_dead:
  "process_line_no_date_branch db fl raw = process_line db fl raw
   \<and> create_pdf_no_date_branch db resume_text full_name = create_pdf db resume_text full_name"
proof -
  have "process_line_no_date_branch db fl' raw' = process_line db fl' raw'" for fl' raw'
    by (auto simp: process_line_no_date_branch_def process_line_def Let_def)
  then have "process_line_no_date_branch db = process_line db"
    by (intro ext)
  then show ?thesis
    by (simp add: create_pdf_no_date_branch_def create_pdf_def)
qed

text \<open>
  C9. For every call, the document template has the US Letter page size, 612 by 792
  points, and margins of 0.75 inch, 54 points, on the left, right, top and bottom.
\<close>

theorem page_geometry:
  "pagesize (create_pdf db resume_text full_name) = letter
   \<and> letter = (8.5 * inch, 11 * inch) \<and> letter = (612, 792)
   \<and> leftMargin (create_pdf db resume_text full_name) = 0.75 * inch
   \<and> rightMargin (create_pdf db resume_text full_name) = 0.75 * inch
   \<and> topMargin (create_pdf db resume_text full_name) = 0.75 * inch
   \<and> bottomMargin (create_pdf db resume_text full_name) = 0.75 * inch
   \<and> 0.75 * inch = 54"
  by (simp add: create_pdf_def letter_def inch_def)

text \<open>
  C10, as amended. A non-blank line without any cased character fails the upper-case
  test, so it is never a SectionHeader, at any position of any text. It is the Name
  when the Name rule fires on it and a ContactLine when the ContactLine rule fires;
  otherwise it is a SubHeading if it contains an em-dash and does not start with the
  bullet glyph, a Bullet if it starts with the bullet glyph, and a Body line if
  neither.
\<close>

theorem uncased_line_never_header:
  assumes "line = py_strip raw" and "line \<noteq> []" and "\<forall>c\<in>set line. uncased db c"
  shows "\<not> py_isupper db line
     \<and> role_of (fst (process_line db fl raw)) \<noteq> SectionHeader
     \<and> role_of (fst (process_line db fl raw)) =
         (if is_first_line fl \<and> length line < 80 then Name
          else if is_second_line fl \<and> vbar \<in> set line then ContactLine
          else if em_dash \<in> set line \<and> hd line \<noteq> bullet_glyph then SubHeading
          else if hd line = bullet_glyph then Bullet
          else Body)
     \<and> (\<forall>t i. i < length (py_split newline t) \<and> py_split newline t ! i = raw
        \<longrightarrow> roles db t ! i \<noteq> SectionHeader)"
proof -
  have up: "\<not> py_isupper db line"
    using assms(3) by (rule not_upper_if_uncased)
  have ex: "role_of (fst (process_line db fl' raw)) =
         (if is_first_line fl' \<and> length line < 80 then Name
          else if is_second_line fl' \<and> vbar \<in> set line then ContactLine
          else if em_dash \<in> set line \<and> hd line \<noteq> bullet_glyph then SubHeading
          else if hd line = bullet_glyph then Bullet
          else Body)" for fl'
    using up by (simp add: process_line_role [OF assms(1,2)])
  have nh: "role_of (fst (process_line db fl' raw)) \<noteq> SectionHeader" for fl'
    by (simp add: ex)
  have tx: "\<forall>t i. i < length (py_split newline t) \<and> py_split newline t ! i = raw
        \<longrightarrow> roles db t ! i \<noteq> SectionHeader"
    using nh by (auto simp: roles_nth)
  show ?thesis by (intro conjI up nh ex tx)
qed

theorem uncased_line_never_header_witness:
  "py_strip digits_line \<noteq> [] \<and> uncased ascii_case (hd (py_strip digits_line))
   \<and> \<not> py_isupper ascii_case (py_strip digits_line)
   \<and> 3 < length (py_strip digits_line) \<and> length (py_strip digits_line) < 50
   \<and> role_of (fst (process_line ascii_case steady_flags digits_line)) = Body"
proof -
  have st: "digits_line = py_strip digits_line"
    by (simp add: py_strip_def py_isspace_def digits_line_def ustr_def)
  have a: "digits_line \<noteq> []" by (simp add: digits_line_def ustr_def)
  have b: "\<forall>c\<in>set digits_line. uncased ascii_case c"
    by (simp add: digits_line_def ustr_def uncased_def ascii_case_def)
  have d: "3 < length digits_line \<and> length digits_line < 50"
    by (simp add: digits_line_def ustr_def)
  have e: "uncased ascii_case (hd digits_line)"
    by (simp add: digits_line_def ustr_def uncased_def ascii_case_def)
  have f: "em_dash \<notin> set digits_line \<and> hd digits_line \<noteq> bullet_glyph"
    by (simp add: digits_line_def char_defs)
  from uncased_line_never_header [OF st a b, of steady_flags] st [symmetric] a d e f
  show ?thesis by (simp add: steady_flags_def)
qed

text \<open>
  C10 as stated fails: the text whose only line is \<open>2019 - 2023\<close> has no cased
  character, and that line is the Name, not a SubHeading, Bullet or Body line.
\<close>

theorem uncased_first_line_counterexample:
  "roles ascii_case digits_line = [Name]
   \<and> py_strip digits_line \<noteq> []
   \<and> list_all (uncased ascii_case) (py_strip digits_line)
   \<and> 3 < length (py_strip digits_line) \<and> length (py_strip digits_line) < 50"
proof -
  have sp: "py_split newline digits_line = [digits_line]"
    by (rule py_split_no_sep) (simp add: digits_line_def char_defs)
  have st: "py_strip digits_line = digits_line"
    by (simp add: py_strip_def py_isspace_def digits_line_def ustr_def)
  have "roles ascii_case digits_line = [Name]"
    unfolding roles_def create_pdf_def
    by (simp add: sp) (simp add: run_defs digits_line_def char_defs)
  moreover have "list_all (uncased ascii_case) digits_line"
    by (simp add: digits_line_def ustr_def uncased_def ascii_case_def)
  ultimately show ?thesis by (simp add: st) (simp add: digits_line_def ustr_def)
qed

end
